theory Spec2Isabelle
  imports Complex_Main "HOL-Library.List_Lexorder" "HOL-Library.Char_ord" "HOL-Library.Multiset"
begin

section \<open>The persistent event queue (event_queue.py)\<close>

text \<open>
  The queue is an SQLite file with two tables. The \<^verbatim>\<open>events\<close> table is modelled as the list
  of its rows in rowid order, the \<^verbatim>\<open>stats\<close> table by the value stored under the key
  \<^verbatim>\<open>processed_count\<close>. Timestamps are TEXT columns; SQLite compares them bytewise, which is
  the lexicographic order on \<^typ>\<open>string\<close>. The clock (\<^verbatim>\<open>CURRENT_TIMESTAMP\<close>,
  \<^verbatim>\<open>datetime.now()\<close>, \<^verbatim>\<open>datetime('now', ...)\<close>) is an argument of the operation
  that reads it. The event payload is kept as opaque text (\<^verbatim>\<open>json.dumps\<close> on the way in,
  \<^verbatim>\<open>json.loads\<close> on the way out).
\<close>

datatype status = Pending | Processed | Failed

text \<open>An event as the stream task hands it to \<^verbatim>\<open>enqueue\<close>.\<close>

record event =
  ev_type :: string
  ev_camera_id :: int
  ev_timestamp :: string
  ev_data :: string

text \<open>An event as \<^verbatim>\<open>get_pending\<close> returns it: the same keys plus id and retry_count.\<close>

record queued_event = event +
  ev_id :: int
  ev_retry_count :: int

text \<open>A row of the \<^verbatim>\<open>events\<close> table.\<close>

record event_row =
  row_id :: int
  row_type :: string
  camera_id :: int
  timestamp :: string
  data :: string
  status :: status
  retry_count :: int
  created_at :: string
  processed_at :: "string option"

record event_queue =
  rows :: "event_row list"
  seq :: int
  stats_processed_count :: int
  processed_count :: int

text \<open>
  The state after \<^verbatim>\<open>_init_db\<close> on a fresh file: no rows, no AUTOINCREMENT history,
  \<^verbatim>\<open>processed_count\<close> inserted as 0 and read back.
\<close>

definition init_db :: event_queue where
  "init_db = \<lparr>rows = [], seq = 0, stats_processed_count = 0, processed_count = 0\<rparr>"

text \<open>
  \<^verbatim>\<open>id INTEGER PRIMARY KEY AUTOINCREMENT\<close>: the new rowid is one more than the largest
  rowid the table has ever held, which SQLite takes as the larger of the sequence counter and
  the largest rowid present.
\<close>

definition max_row_id :: "event_row list \<Rightarrow> int" where
  "max_row_id rs = fold max (map row_id rs) 0"

definition next_row_id :: "event_queue \<Rightarrow> int" where
  "next_row_id q = max (seq q) (max_row_id (rows q)) + 1"

definition enqueue :: "event \<Rightarrow> string \<Rightarrow> event_queue \<Rightarrow> int \<times> event_queue" where
  "enqueue e now q =
     (let event_id = next_row_id q;
          r = \<lparr>row_id = event_id, row_type = ev_type e, camera_id = ev_camera_id e,
               timestamp = ev_timestamp e, data = ev_data e, status = Pending,
               retry_count = 0, created_at = now, processed_at = None\<rparr>
      in (event_id, q\<lparr>rows := rows q @ [r], seq := event_id\<rparr>))"

text \<open>
  \<^verbatim>\<open>LIMIT ?\<close>: SQLite returns at most that many rows, and puts no bound on the result
  when the bound value is negative.
\<close>

definition sql_limit :: "int \<Rightarrow> 'a list \<Rightarrow> 'a list" where
  "sql_limit n xs = (if n < 0 then xs else take (nat n) xs)"

text \<open>
  The SELECT of \<^verbatim>\<open>get_pending\<close>. Rows with equal \<^verbatim>\<open>created_at\<close> come out in rowid
  order here (\<^const>\<open>sort_key\<close> is stable); SQLite promises no particular order among them.
\<close>

definition select_pending :: "int \<Rightarrow> event_queue \<Rightarrow> event_row list" where
  "select_pending batch_size q =
     sql_limit batch_size
       (sort_key created_at
          (filter (\<lambda>r. status r = Pending \<and> retry_count r < 5) (rows q)))"

definition row_to_event :: "event_row \<Rightarrow> queued_event" where
  "row_to_event r =
     \<lparr>ev_type = row_type r, ev_camera_id = camera_id r, ev_timestamp = timestamp r,
      ev_data = data r, ev_id = row_id r, ev_retry_count = retry_count r\<rparr>"

definition get_pending :: "int \<Rightarrow> event_queue \<Rightarrow> queued_event list" where
  "get_pending batch_size q = map row_to_event (select_pending batch_size q)"

text \<open>
  \<^verbatim>\<open>mark_processed\<close>: nothing on an empty list; otherwise one UPDATE over the rows whose id
  is in the list, then the counter grows by the length of the list and is written to the stats
  table.
\<close>

definition mark_processed :: "string \<Rightarrow> int list \<Rightarrow> event_queue \<Rightarrow> event_queue" where
  "mark_processed now event_ids q =
     (if event_ids = [] then q
      else
        let n = processed_count q + int (length event_ids)
        in q\<lparr>rows := map (\<lambda>r. if row_id r \<in> set event_ids
                                then r\<lparr>status := Processed, processed_at := Some now\<rparr>
                                else r) (rows q),
              processed_count := n,
              stats_processed_count := n\<rparr>)"

text \<open>
  \<^verbatim>\<open>mark_failed\<close>: the CASE of the UPDATE reads the retry count the row had before the
  statement.
\<close>

definition mark_failed :: "int list \<Rightarrow> event_queue \<Rightarrow> event_queue" where
  "mark_failed event_ids q =
     (if event_ids = [] then q
      else q\<lparr>rows := map (\<lambda>r. if row_id r \<in> set event_ids
                               then r\<lparr>retry_count := retry_count r + 1,
                                      status := (if retry_count r \<ge> 4 then Failed else Pending)\<rparr>
                               else r) (rows q)\<rparr>)"

text \<open>
  \<^verbatim>\<open>cleanup_old\<close>: \<open>cutoff\<close> is the value of \<^verbatim>\<open>datetime('now', '-N days')\<close>.
\<close>

definition cleanup_old :: "string \<Rightarrow> event_queue \<Rightarrow> event_queue" where
  "cleanup_old cutoff q =
     q\<lparr>rows := filter (\<lambda>r. \<not> ((status r = Processed \<or> status r = Failed) \<and> created_at r < cutoff))
                  (rows q)\<rparr>"

record queue_stats =
  pending :: nat
  processed :: nat
  failed :: nat
  total_processed :: int

definition count_status :: "status \<Rightarrow> event_queue \<Rightarrow> nat" where
  "count_status s q = length (filter (\<lambda>r. status r = s) (rows q))"

definition get_queue_stats :: "event_queue \<Rightarrow> queue_stats" where
  "get_queue_stats q =
     \<lparr>pending = count_status Pending q, processed = count_status Processed q,
      failed = count_status Failed q, total_processed = processed_count q\<rparr>"


subsection \<open>Sequences of queue operations\<close>

text \<open>
  The queue has four mutating methods; a history of the queue is a list of calls, each with
  its arguments and the clock value it read.
\<close>

datatype queue_op =
    Enqueue event string
  | MarkProcessed string "int list"
  | MarkFailed "int list"
  | CleanupOld string

fun apply_op :: "queue_op \<Rightarrow> event_queue \<Rightarrow> event_queue" where
  "apply_op (Enqueue e now) q = snd (enqueue e now q)"
| "apply_op (MarkProcessed now event_ids) q = mark_processed now event_ids q"
| "apply_op (MarkFailed event_ids) q = mark_failed event_ids q"
| "apply_op (CleanupOld cutoff) q = cleanup_old cutoff q"

definition run_ops :: "queue_op list \<Rightarrow> event_queue \<Rightarrow> event_queue" where
  "run_ops ops q = fold apply_op ops q"

text \<open>
  What the schema guarantees of every state of the table: \<^verbatim>\<open>id\<close> is the primary key, and
  the AUTOINCREMENT counter is never below an id in use.
\<close>

definition well_formed :: "event_queue \<Rightarrow> bool" where
  "well_formed q \<longleftrightarrow> distinct (map row_id (rows q)) \<and> list_all (\<lambda>r. row_id r \<le> seq q) (rows q)"

definition ids_with_status :: "status \<Rightarrow> event_queue \<Rightarrow> int list" where
  "ids_with_status s q = map row_id (filter (\<lambda>r. status r = s) (rows q))"

text \<open>
  The calls the drain loop can make: \<^verbatim>\<open>mark_processed\<close> on distinct ids of rows that are
  pending at that moment, \<^verbatim>\<open>mark_failed\<close> on no id of a processed row, and no
  \<^verbatim>\<open>cleanup_old\<close>.
\<close>

fun drain_call :: "queue_op \<Rightarrow> event_queue \<Rightarrow> bool" where
  "drain_call (Enqueue e now) q = True"
| "drain_call (MarkProcessed now event_ids) q =
     (distinct event_ids \<and> list_all (\<lambda>i. i \<in> set (ids_with_status Pending q)) event_ids)"
| "drain_call (MarkFailed event_ids) q =
     list_all (\<lambda>i. i \<notin> set (ids_with_status Processed q)) event_ids"
| "drain_call (CleanupOld cutoff) q = False"

fun drain_history :: "queue_op list \<Rightarrow> event_queue \<Rightarrow> bool" where
  "drain_history [] q = True"
| "drain_history (c # cs) q = (drain_call c q \<and> drain_history cs (apply_op c q))"

fun without_cleanup :: "queue_op list \<Rightarrow> bool" where
  "without_cleanup [] = True"
| "without_cleanup (CleanupOld cutoff # cs) = False"
| "without_cleanup (c # cs) = without_cleanup cs"

section \<open>The cloud session (api_client.py)\<close>

text \<open>
  The body of the \<^verbatim>\<open>/api/edge/events\<close> answer is a JSON object with integer members
  (\<^verbatim>\<open>{processed, failed}\<close>); a member may be missing. What the POST does is an argument of
  \<^verbatim>\<open>submit_events\<close>: it raises (\<open>TransportError\<close>), or it answers with a status and a
  body, where the body is \<open>None\<close> when \<^verbatim>\<open>resp.json()\<close> raises on it. The call of
  \<^verbatim>\<open>_ensure_authenticated\<close> before the \<^verbatim>\<open>try\<close> does not raise (\<^verbatim>\<open>login\<close> catches
  every exception) and only decides which headers the request carries.
\<close>

type_synonym json_object = "string \<rightharpoonup> int"

datatype http_reply = TransportError | Response int "json_object option"

definition all_failed :: "'a list \<Rightarrow> json_object" where
  "all_failed events = [''processed'' \<mapsto> 0, ''failed'' \<mapsto> int (length events)]"

text \<open>
  \<^verbatim>\<open>submit_events\<close>: every exception inside the \<^verbatim>\<open>try\<close> ends in the same
  \<^verbatim>\<open>except Exception\<close> branch.
\<close>

definition submit_events :: "queued_event list \<Rightarrow> http_reply \<Rightarrow> json_object" where
  "submit_events events reply =
     (case reply of
        TransportError \<Rightarrow> all_failed events
      | Response st body \<Rightarrow>
          if st = 200 then (case body of Some d \<Rightarrow> d | None \<Rightarrow> all_failed events)
          else all_failed events)"

section \<open>The event drain loop (main.py)\<close>

text \<open>
  One pass of the body of \<^verbatim>\<open>_event_sync_loop\<close>. A missing \<^verbatim>\<open>processed\<close> member raises
  KeyError, which the loop's \<^verbatim>\<open>except\<close> logs; the queue is then as it was.
\<close>

definition event_sync_cycle :: "http_reply \<Rightarrow> string \<Rightarrow> event_queue \<Rightarrow> event_queue" where
  "event_sync_cycle reply now q =
     (let events = get_pending 50 q
      in if events = [] then q
         else
           let result = submit_events events reply
           in case result ''processed'' of
                None \<Rightarrow> q
              | Some p \<Rightarrow>
                  if p > 0 then mark_processed now (map ev_id (take (nat p) events)) q
                  else q)"

section \<open>Stream reconnection (rtsp_manager.py)\<close>

text \<open>
  \<^verbatim>\<open>_stream_loop\<close> keeps two things between iterations: the stream's
  \<^verbatim>\<open>is_connected\<close> flag and the local \<^verbatim>\<open>reconnect_delay\<close>. What the camera does in an
  iteration is its input: whether \<^verbatim>\<open>connect()\<close> would succeed and whether
  \<^verbatim>\<open>process_frame()\<close> raises. The output is the sequence of sleeps.
\<close>

datatype wait = FrameWait | ReconnectWait int | ErrorWait int

record stream_state =
  is_connected :: bool
  reconnect_delay :: int

record camera_behaviour =
  connect_ok :: bool
  frame_raises :: bool

definition stream_loop_init :: "bool \<Rightarrow> stream_state" where
  "stream_loop_init up = \<lparr>is_connected = up, reconnect_delay = 5\<rparr>"

definition process_and_pause :: "camera_behaviour \<Rightarrow> stream_state \<Rightarrow> wait list \<times> stream_state" where
  "process_and_pause env s =
     (if frame_raises env
      then ([ErrorWait (reconnect_delay s)], s\<lparr>is_connected := False\<rparr>)
      else ([FrameWait], s))"

definition stream_iteration :: "camera_behaviour \<Rightarrow> stream_state \<Rightarrow> wait list \<times> stream_state" where
  "stream_iteration env s =
     (if \<not> is_connected s then
        if connect_ok env
        then process_and_pause env (s\<lparr>is_connected := True, reconnect_delay := 5\<rparr>)
        else ([ReconnectWait (reconnect_delay s)],
              s\<lparr>reconnect_delay := min (reconnect_delay s * 2) 60\<rparr>)
      else process_and_pause env s)"

fun stream_loop :: "camera_behaviour list \<Rightarrow> stream_state \<Rightarrow> wait list \<times> stream_state" where
  "stream_loop [] s = ([], s)"
| "stream_loop (env # envs) s =
     (case stream_iteration env s of
        (w, s1) \<Rightarrow> (case stream_loop envs s1 of (ws, s2) \<Rightarrow> (w @ ws, s2)))"

text \<open>The first reconnection wait in a sequence of sleeps, if there is one.\<close>

fun first_reconnect :: "wait list \<Rightarrow> int option" where
  "first_reconnect [] = None"
| "first_reconnect (ReconnectWait d # ws) = Some d"
| "first_reconnect (w # ws) = first_reconnect ws"

section \<open>Configuration from the cloud (config.py)\<close>

datatype py_error = KeyError string | IndexError | ValueError | Unsupported

record camera_config =
  cam_id :: int
  cam_name :: string
  rtsp_url :: string
  cam_type :: string
  location :: string
  enabled :: bool

record nvr_config =
  nvr_id :: int
  nvr_name :: string
  ip_address :: string
  port :: int
  username :: string
  password :: string
  rtsp_template :: string
  total_channels :: int

text \<open>
  The entries of the cloud document are JSON objects. A member is \<open>None\<close> when the key is
  absent: the code reads \<^verbatim>\<open>id\<close>, \<^verbatim>\<open>name\<close> and \<^verbatim>\<open>ipAddress\<close> with
  \<^verbatim>\<open>[...]\<close> (KeyError when absent) and every other key with \<^verbatim>\<open>.get\<close>.
\<close>

record cloud_camera =
  c_id :: "int option"
  c_name :: "string option"
  rtspUrl :: "string option"
  nvrId :: "int option"
  channelNumber :: "int option"
  c_type :: "string option"
  c_location :: "string option"
  isActive :: "bool option"

record cloud_nvr =
  n_id :: "int option"
  n_name :: "string option"
  ipAddress :: "string option"
  n_port :: "int option"
  n_username :: "string option"
  n_password :: "string option"
  rtspTemplate :: "string option"
  totalChannels :: "int option"

record face_encoding =
  entityType :: string
  entityId :: int
  encoding :: string

record cloud_school_config =
  enableFaceRecognition :: "bool option"
  enableDisciplineAlerts :: "bool option"
  attendanceConfidenceThreshold :: "int option"
  fightConfidenceThreshold :: "int option"

record cloud_config =
  cloud_cameras :: "cloud_camera list option"
  cloud_nvrs :: "cloud_nvr list option"
  faceEncodings :: "face_encoding list option"
  schoolConfig :: "cloud_school_config option"

text \<open>
  The attributes of \<^verbatim>\<open>Config\<close> that \<^verbatim>\<open>update_from_cloud\<close> reads or writes. The other
  attributes (URLs, credentials, intervals) sit in the record's extension, which no function
  below touches. The two thresholds are the exact quotients; Python holds their nearest
  floats.
\<close>

record config =
  cameras :: "camera_config list"
  nvrs :: "nvr_config list"
  face_encodings :: "face_encoding list"
  school_config :: cloud_school_config
  face_detection_enabled :: bool
  discipline_detection_enabled :: bool
  face_confidence_threshold :: rat
  discipline_confidence_threshold :: rat

text \<open>The values \<^verbatim>\<open>Config.__init__\<close> sets, before any file or cloud data.\<close>

definition config_init :: config where
  "config_init =
     \<lparr>cameras = [], nvrs = [], face_encodings = [],
      school_config = \<lparr>enableFaceRecognition = None, enableDisciplineAlerts = None,
                       attendanceConfidenceThreshold = None, fightConfidenceThreshold = None\<rparr>,
      face_detection_enabled = True, discipline_detection_enabled = True,
      face_confidence_threshold = 80 / 100, discipline_confidence_threshold = 85 / 100\<rparr>"

text \<open>
  \<^verbatim>\<open>str.format\<close> with keyword arguments belongs to Python, not to this program: the
  functions below take it as the argument \<open>fmt\<close>, and \<open>py_format\<close> further down is the
  instance for templates whose replacement fields are plain names.
\<close>

datatype pyval = PyStr string | PyInt int

type_synonym formatter = "string \<Rightarrow> (string \<times> pyval) list \<Rightarrow> py_error + string"

definition default_rtsp_template :: string where
  "default_rtsp_template =
     ''rtsp://{username}:{password}@'' @ ''{ip}:{port}/cam/realmonitor?channel={channel}&subtype=0''"

text \<open>
  \<^verbatim>\<open>_build_nvr_rtsp_url\<close>: the first NVR of \<^verbatim>\<open>self.nvrs\<close> whose id equals the entry's
  \<^verbatim>\<open>nvrId\<close> gives the URL; with none, the result is the empty string.
\<close>

fun find_nvr :: "nvr_config list \<Rightarrow> int option \<Rightarrow> nvr_config option" where
  "find_nvr [] i = None"
| "find_nvr (n # ns) i = (if Some (nvr_id n) = i then Some n else find_nvr ns i)"

definition build_nvr_rtsp_url :: "formatter \<Rightarrow> nvr_config list \<Rightarrow> cloud_camera \<Rightarrow> py_error + string" where
  "build_nvr_rtsp_url fmt ns camera =
     (let channel = (case channelNumber camera of None \<Rightarrow> 1 | Some ch \<Rightarrow> ch)
      in case find_nvr ns (nvrId camera) of
           None \<Rightarrow> Inr []
         | Some n \<Rightarrow>
             fmt (if rtsp_template n = [] then default_rtsp_template else rtsp_template n)
                 [(''username'', PyStr (username n)), (''password'', PyStr (password n)),
                  (''ip'', PyStr (ip_address n)), (''port'', PyInt (port n)),
                  (''channel'', PyInt channel)])"

text \<open>
  One pass of the loop over \<^verbatim>\<open>cloud_config['cameras']\<close>. \<^verbatim>\<open>cam.get('nvrId')\<close> is truthy
  when the key is present and not 0.
\<close>

definition camera_from_cloud :: "formatter \<Rightarrow> nvr_config list \<Rightarrow> cloud_camera \<Rightarrow> py_error + camera_config" where
  "camera_from_cloud fmt ns cam =
     (let url0 = (case rtspUrl cam of None \<Rightarrow> [] | Some u \<Rightarrow> u);
          built = (if url0 = [] \<and> nvrId cam \<noteq> None \<and> nvrId cam \<noteq> Some 0
                   then build_nvr_rtsp_url fmt ns cam else Inr url0)
      in case built of
           Inl e \<Rightarrow> Inl e
         | Inr url \<Rightarrow>
             (case c_id cam of
                None \<Rightarrow> Inl (KeyError ''id'')
              | Some i \<Rightarrow>
                  (case c_name cam of
                     None \<Rightarrow> Inl (KeyError ''name'')
                   | Some nm \<Rightarrow>
                       Inr \<lparr>cam_id = i, cam_name = nm, rtsp_url = url,
                            cam_type = (case c_type cam of None \<Rightarrow> ''GENERAL'' | Some t \<Rightarrow> t),
                            location = (case c_location cam of None \<Rightarrow> [] | Some l \<Rightarrow> l),
                            enabled = (case isActive cam of None \<Rightarrow> True | Some b \<Rightarrow> b)\<rparr>)))"

fun build_cameras :: "formatter \<Rightarrow> nvr_config list \<Rightarrow> cloud_camera list \<Rightarrow> py_error + camera_config list" where
  "build_cameras fmt ns [] = Inr []"
| "build_cameras fmt ns (cam # cams) =
     (case camera_from_cloud fmt ns cam of
        Inl e \<Rightarrow> Inl e
      | Inr c \<Rightarrow> (case build_cameras fmt ns cams of Inl e \<Rightarrow> Inl e | Inr cs \<Rightarrow> Inr (c # cs)))"

definition nvr_from_cloud :: "cloud_nvr \<Rightarrow> py_error + nvr_config" where
  "nvr_from_cloud nvr =
     (case n_id nvr of
        None \<Rightarrow> Inl (KeyError ''id'')
      | Some i \<Rightarrow>
          (case n_name nvr of
             None \<Rightarrow> Inl (KeyError ''name'')
           | Some nm \<Rightarrow>
               (case ipAddress nvr of
                  None \<Rightarrow> Inl (KeyError ''ipAddress'')
                | Some ip \<Rightarrow>
                    Inr \<lparr>nvr_id = i, nvr_name = nm, ip_address = ip,
                         port = (case n_port nvr of None \<Rightarrow> 554 | Some p \<Rightarrow> p),
                         username = (case n_username nvr of None \<Rightarrow> [] | Some u \<Rightarrow> u),
                         password = (case n_password nvr of None \<Rightarrow> [] | Some pw \<Rightarrow> pw),
                         rtsp_template = (case rtspTemplate nvr of None \<Rightarrow> [] | Some t \<Rightarrow> t),
                         total_channels = (case totalChannels nvr of None \<Rightarrow> 16 | Some k \<Rightarrow> k)\<rparr>)))"

fun build_nvrs :: "cloud_nvr list \<Rightarrow> py_error + nvr_config list" where
  "build_nvrs [] = Inr []"
| "build_nvrs (nvr # rest) =
     (case nvr_from_cloud nvr of
        Inl e \<Rightarrow> Inl e
      | Inr n \<Rightarrow> (case build_nvrs rest of Inl e \<Rightarrow> Inl e | Inr ns \<Rightarrow> Inr (n # ns)))"

definition apply_school_config :: "cloud_school_config \<Rightarrow> 'a config_scheme \<Rightarrow> 'a config_scheme" where
  "apply_school_config sc c =
     c\<lparr>school_config := sc,
       face_detection_enabled := (case enableFaceRecognition sc of None \<Rightarrow> True | Some b \<Rightarrow> b),
       discipline_detection_enabled := (case enableDisciplineAlerts sc of None \<Rightarrow> True | Some b \<Rightarrow> b),
       face_confidence_threshold :=
         of_int (case attendanceConfidenceThreshold sc of None \<Rightarrow> 80 | Some t \<Rightarrow> t) / 100,
       discipline_confidence_threshold :=
         of_int (case fightConfidenceThreshold sc of None \<Rightarrow> 85 | Some t \<Rightarrow> t) / 100\<rparr>"

text \<open>
  \<^verbatim>\<open>update_from_cloud\<close>, in the order of the source: the cameras are built against the NVR
  list the configuration holds when the call starts, and only then is that list replaced.
  \<open>Inl\<close> is the exception the call leaves with.
\<close>

definition update_cameras :: "formatter \<Rightarrow> cloud_config \<Rightarrow> 'a config_scheme \<Rightarrow> py_error + 'a config_scheme" where
  "update_cameras fmt cloud c =
     (case cloud_cameras cloud of
        None \<Rightarrow> Inr c
      | Some cams \<Rightarrow>
          (case build_cameras fmt (nvrs c) cams of
             Inl e \<Rightarrow> Inl e
           | Inr cs \<Rightarrow> Inr (c\<lparr>cameras := cs\<rparr>)))"

definition update_nvrs :: "cloud_config \<Rightarrow> 'a config_scheme \<Rightarrow> py_error + 'a config_scheme" where
  "update_nvrs cloud c =
     (case cloud_nvrs cloud of
        None \<Rightarrow> Inr c
      | Some ns \<Rightarrow>
          (case build_nvrs ns of
             Inl e \<Rightarrow> Inl e
           | Inr ns' \<Rightarrow> Inr (c\<lparr>nvrs := ns'\<rparr>)))"

definition update_rest :: "cloud_config \<Rightarrow> 'a config_scheme \<Rightarrow> 'a config_scheme" where
  "update_rest cloud c =
     (let c1 = (case faceEncodings cloud of None \<Rightarrow> c | Some fe \<Rightarrow> c\<lparr>face_encodings := fe\<rparr>)
      in case schoolConfig cloud of None \<Rightarrow> c1 | Some sc \<Rightarrow> apply_school_config sc c1)"

definition update_from_cloud :: "formatter \<Rightarrow> cloud_config \<Rightarrow> 'a config_scheme \<Rightarrow> py_error + 'a config_scheme" where
  "update_from_cloud fmt cloud c =
     (case update_cameras fmt cloud c of
        Inl e \<Rightarrow> Inl e
      | Inr c1 \<Rightarrow>
          (case update_nvrs cloud c1 of
             Inl e \<Rightarrow> Inl e
           | Inr c2 \<Rightarrow> Inr (update_rest cloud c2)))"

definition get_active_cameras :: "'a config_scheme \<Rightarrow> camera_config list" where
  "get_active_cameras c = filter (\<lambda>cam. enabled cam \<and> rtsp_url cam \<noteq> []) (cameras c)"

subsection \<open>A formatter for plain replacement fields\<close>

text \<open>
  \<open>py_format\<close> follows \<^verbatim>\<open>str.format\<close> on templates made of literal text, doubled braces
  and fields \<^verbatim>\<open>{name}\<close>; a field with an attribute, an index, a conversion or a format
  specification is answered with \<open>Unsupported\<close>.
\<close>

function str_nat :: "nat \<Rightarrow> string" where
  "str_nat n =
     (if n < 10 then [''0123456789'' ! n]
      else str_nat (n div 10) @ [''0123456789'' ! (n mod 10)])"
  by pat_completeness auto
termination
  by (relation "measure (\<lambda>n. n)") auto

definition str_int :: "int \<Rightarrow> string" where
  "str_int i = (if i < 0 then CHR ''-'' # str_nat (nat (- i)) else str_nat (nat i))"

fun str_pyval :: "pyval \<Rightarrow> string" where
  "str_pyval (PyStr s) = s"
| "str_pyval (PyInt i) = str_int i"

definition lookup_field :: "(string \<times> pyval) list \<Rightarrow> string \<Rightarrow> py_error + string" where
  "lookup_field kw name =
     (if name = [] \<or> list_all (\<lambda>ch. ch \<in> set ''0123456789'') name then Inl IndexError
      else case map_of kw name of None \<Rightarrow> Inl (KeyError name) | Some v \<Rightarrow> Inr (str_pyval v))"

definition prepend :: "string \<Rightarrow> py_error + string \<Rightarrow> py_error + string" where
  "prepend s r = (case r of Inl e \<Rightarrow> Inl e | Inr t \<Rightarrow> Inr (s @ t))"

fun format_text :: "(string \<times> pyval) list \<Rightarrow> string \<Rightarrow> py_error + string"
  and format_field :: "(string \<times> pyval) list \<Rightarrow> string \<Rightarrow> string \<Rightarrow> py_error + string" where
  "format_text kw [] = Inr []"
| "format_text kw [ch] = (if ch = CHR ''{'' \<or> ch = CHR ''}'' then Inl ValueError else Inr [ch])"
| "format_text kw (ch # d # cs) =
     (if ch = CHR ''{'' then
        (if d = CHR ''{'' then prepend [ch] (format_text kw cs) else format_field kw [] (d # cs))
      else if ch = CHR ''}'' then
        (if d = CHR ''}'' then prepend [ch] (format_text kw cs) else Inl ValueError)
      else prepend [ch] (format_text kw (d # cs)))"
| "format_field kw name [] = Inl ValueError"
| "format_field kw name (ch # cs) =
     (if ch = CHR ''}'' then
        (case lookup_field kw name of Inl e \<Rightarrow> Inl e | Inr v \<Rightarrow> prepend v (format_text kw cs))
      else if ch \<in> set ''{.[!:'' then Inl Unsupported
      else format_field kw (name @ [ch]) cs)"

definition py_format :: formatter where
  "py_format template kw = format_text kw template"

section \<open>Example states\<close>

definition ev_a :: event where
  "ev_a = \<lparr>ev_type = ''ATTENDANCE'', ev_camera_id = 1,
           ev_timestamp = ''2026-01-01T10:00:00'', ev_data = ''{}''\<rparr>"

definition ev_b :: event where
  "ev_b = \<lparr>ev_type = ''DISCIPLINE'', ev_camera_id = 2,
           ev_timestamp = ''2026-01-01T10:00:05'', ev_data = ''{}''\<rparr>"

text \<open>A fresh queue after one and after two detections.\<close>

definition q_one :: event_queue where
  "q_one = snd (enqueue ev_a ''2026-01-01 10:00:00'' init_db)"

definition q_two :: event_queue where
  "q_two = snd (enqueue ev_b ''2026-01-01 10:00:05'' q_one)"

text \<open>Two answers of the cloud to a batch: one event accepted and one not; none accepted.\<close>

definition partial_reply :: http_reply where
  "partial_reply = Response 200 (Some [''processed'' \<mapsto> 1, ''failed'' \<mapsto> 1])"

definition rejected_reply :: http_reply where
  "rejected_reply = Response 200 (Some [''processed'' \<mapsto> 0, ''failed'' \<mapsto> 1])"

text \<open>A camera that cannot be reached.\<close>

definition unreachable :: camera_behaviour where
  "unreachable = \<lparr>connect_ok = False, frame_raises = False\<rparr>"

text \<open>
  A cloud document with one NVR and one camera that names it by id and has no URL of its own,
  the result of applying it to a fresh configuration once and twice, and the configuration
  it should give, as a function of the camera's URL.
\<close>

definition nvr_entry :: cloud_nvr where
  "nvr_entry = \<lparr>n_id = Some 7, n_name = Some ''NVR-1'', ipAddress = Some ''10.0.0.5'',
                n_port = None, n_username = Some ''admin'', n_password = Some ''pw'',
                rtspTemplate = None, totalChannels = None\<rparr>"

definition nvr_camera :: cloud_camera where
  "nvr_camera = \<lparr>c_id = Some 1, c_name = Some ''Gate'', rtspUrl = None, nvrId = Some 7,
                 channelNumber = Some 3, c_type = Some ''ENTRY'', c_location = None,
                 isActive = Some True\<rparr>"

definition nvr_document :: cloud_config where
  "nvr_document = \<lparr>cloud_cameras = Some [nvr_camera], cloud_nvrs = Some [nvr_entry],
                   faceEncodings = None,
                   schoolConfig = Some \<lparr>enableFaceRecognition = None, enableDisciplineAlerts = None,
                                        attendanceConfidenceThreshold = Some 90,
                                        fightConfidenceThreshold = None\<rparr>\<rparr>"

definition sync_once :: "py_error + config" where
  "sync_once = update_from_cloud py_format nvr_document config_init"

definition sync_twice :: "py_error + config" where
  "sync_twice = (case sync_once of Inl e \<Rightarrow> Inl e | Inr c \<Rightarrow> update_from_cloud py_format nvr_document c)"

definition gate_camera :: "string \<Rightarrow> camera_config" where
  "gate_camera url = \<lparr>cam_id = 1, cam_name = ''Gate'', rtsp_url = url, cam_type = ''ENTRY'',
                      location = [], enabled = True\<rparr>"

definition nvr_1 :: nvr_config where
  "nvr_1 = \<lparr>nvr_id = 7, nvr_name = ''NVR-1'', ip_address = ''10.0.0.5'', port = 554,
            username = ''admin'', password = ''pw'', rtsp_template = [], total_channels = 16\<rparr>"

definition synced :: "string \<Rightarrow> config" where
  "synced url =
     \<lparr>cameras = [gate_camera url], nvrs = [nvr_1], face_encodings = [],
      school_config = \<lparr>enableFaceRecognition = None, enableDisciplineAlerts = None,
                       attendanceConfidenceThreshold = Some 90, fightConfidenceThreshold = None\<rparr>,
      face_detection_enabled = True, discipline_detection_enabled = True,
      face_confidence_threshold = 90 / 100, discipline_confidence_threshold = 85 / 100\<rparr>"

text \<open>
  The queue of one event after its acknowledgement, after four failed deliveries and after
  five; a history that acknowledges the same id twice; and a history of one drain cycle on
  two events.
\<close>

definition q_done :: event_queue where
  "q_done = mark_processed ''2026-01-01T10:00:07'' [1] q_one"

definition q_retry4 :: event_queue where
  "q_retry4 = run_ops [MarkFailed [1], MarkFailed [1], MarkFailed [1], MarkFailed [1]] q_one"

definition q_failed :: event_queue where
  "q_failed = mark_failed [1] q_retry4"

definition double_ack :: "queue_op list" where
  "double_ack = [Enqueue ev_a ''2026-01-01 10:00:00'', MarkProcessed ''2026-01-01T10:00:07'' [1],
                 MarkProcessed ''2026-01-01T10:00:12'' [1]]"

definition one_drain :: "queue_op list" where
  "one_drain = [Enqueue ev_a ''2026-01-01 10:00:00'', Enqueue ev_b ''2026-01-01 10:00:05'',
                MarkProcessed ''2026-01-01T10:00:07'' [1], MarkFailed [2]]"

section \<open>Properties of the event queue\<close>

subsection \<open>\<^verbatim>\<open>get_pending\<close>\<close>


lemma sql_limit_subset: "set (sql_limit n xs) \<subseteq> set xs"
  by (auto simp: sql_limit_def dest: in_set_takeD)



lemma q_one_rows:
  "rows q_one = [\<lparr>row_id = 1, row_type = ''ATTENDANCE'', camera_id = 1,
                  timestamp = ''2026-01-01T10:00:00'', data = ''{}'', status = Pending,
                  retry_count = 0, created_at = ''2026-01-01 10:00:00'', processed_at = None\<rparr>]"
  by (simp add: q_one_def enqueue_def init_db_def next_row_id_def max_row_id_def ev_a_def Let_def)

lemma q_one_seq: "seq q_one = 1 \<and> processed_count q_one = 0 \<and> stats_processed_count q_one = 0"
  by (simp add: q_one_def enqueue_def init_db_def next_row_id_def max_row_id_def Let_def)

lemma q_two_rows:
  "rows q_two = [\<lparr>row_id = 1, row_type = ''ATTENDANCE'', camera_id = 1,
                  timestamp = ''2026-01-01T10:00:00'', data = ''{}'', status = Pending,
                  retry_count = 0, created_at = ''2026-01-01 10:00:00'', processed_at = None\<rparr>,
                 \<lparr>row_id = 2, row_type = ''DISCIPLINE'', camera_id = 2,
                  timestamp = ''2026-01-01T10:00:05'', data = ''{}'', status = Pending,
                  retry_count = 0, created_at = ''2026-01-01 10:00:05'', processed_at = None\<rparr>]"
  by (simp add: q_two_def enqueue_def next_row_id_def max_row_id_def ev_b_def Let_def
      q_one_rows q_one_seq)

lemma q_two_seq: "seq q_two = 2 \<and> processed_count q_two = 0 \<and> stats_processed_count q_two = 0"
  by (simp add: q_two_def enqueue_def next_row_id_def max_row_id_def Let_def q_one_rows q_one_seq)







section \<open>Properties of the drain loop and the cloud session\<close>

lemma mark_processed_retry:
  "map retry_count (rows (mark_processed now ids q)) = map retry_count (rows q)"
  by (simp add: mark_processed_def Let_def o_def)

text \<open>No drain cycle changes the retry count of any row.\<close>

lemma event_sync_cycle_retry:
  "map retry_count (rows (event_sync_cycle reply now q)) = map retry_count (rows q)"
  by (simp add: event_sync_cycle_def Let_def mark_processed_retry split: option.split)

lemma get_pending_q_two:
  "get_pending 50 q_two = map row_to_event (rows q_two)"
  by (simp add: get_pending_def select_pending_def sql_limit_def q_two_rows)

text \<open>
  Claim C1 says that a drain cycle marks the ids after the first \<open>processed\<close> as failed and
  bumps their retry count. In the code the cycle never calls \<^verbatim>\<open>mark_failed\<close>: with two
  pending events and the answer \<^verbatim>\<open>{processed: 1, failed: 1}\<close>, the first event becomes
  processed and the second stays pending with retry count 0.
\<close>

theorem drain_cycle_partial:
  "map (\<lambda>r. (row_id r, status r, retry_count r))
       (rows (event_sync_cycle partial_reply ''2026-01-01T10:00:07'' q_two))
   = [(1, Processed, 0), (2, Pending, 0)]"
  by (simp add: event_sync_cycle_def get_pending_q_two submit_events_def partial_reply_def
      mark_processed_def Let_def q_two_rows row_to_event_def)

text \<open>With \<^verbatim>\<open>{processed: 0, failed: 1}\<close> the cycle leaves the queue as it was.\<close>

lemma drain_cycle_rejected:
  "event_sync_cycle rejected_reply ''2026-01-01T10:00:07'' q_one = q_one"
  by (simp add: event_sync_cycle_def get_pending_def select_pending_def sql_limit_def q_one_rows
      submit_events_def rejected_reply_def Let_def)

text \<open>
  Claim C7. For every list of events, \<^verbatim>\<open>submit_events\<close> returns
  \<^verbatim>\<open>{processed: 0, failed: len(events)}\<close> when the request raises and when the status is
  not 200; the body of a 200 answer is returned as it is; and every result is either that
  fallback or the body of a 200 answer.
\<close>

theorem submit_events_result:
  "submit_events events TransportError = all_failed events
   \<and> (st \<noteq> 200 \<longrightarrow> submit_events events (Response st body) = all_failed events)
   \<and> submit_events events (Response 200 (Some d)) = d
   \<and> (submit_events events reply = all_failed events
        \<or> reply = Response 200 (Some (submit_events events reply)))
   \<and> all_failed events ''processed'' = Some 0
   \<and> all_failed events ''failed'' = Some (int (length events))
   \<and> dom (all_failed events) = {''processed'', ''failed''}"
proof -
  have a: "submit_events events reply = all_failed events
        \<or> reply = Response 200 (Some (submit_events events reply))"
    by (cases reply) (auto simp: submit_events_def split: option.splits)
  have b: "dom (all_failed events) = {''processed'', ''failed''}"
    by (auto simp: all_failed_def split: if_splits)
  show ?thesis using a b by (simp add: submit_events_def all_failed_def)
qed

theorem submit_events_result_witness:
  "submit_events (get_pending 50 q_two) (Response 500 None) = all_failed (get_pending 50 q_two)
   \<and> all_failed (get_pending 50 q_two) ''failed'' = Some 2"
proof -
  have n: "(500::int) \<noteq> 200" by simp
  have l: "length (get_pending 50 q_two) = 2" by (simp add: get_pending_q_two q_two_rows)
  from submit_events_result [of "get_pending 50 q_two" 500 None]
  have "(500::int) \<noteq> 200 \<longrightarrow> submit_events (get_pending 50 q_two) (Response 500 None) = all_failed (get_pending 50 q_two)"
    and "all_failed (get_pending 50 q_two) ''failed'' = Some (int (length (get_pending 50 q_two)))"
    by blast+
  with n l show ?thesis by simp
qed

section \<open>Properties of the stream loop\<close>

lemma ladder_step: "min (min (5 * 2 ^ k) 60 * 2) (60::int) = min (5 * 2 ^ Suc k) 60"
  by (simp add: min_def)

lemma failures_from:
  "\<not> is_connected s \<Longrightarrow> reconnect_delay s = min (5 * 2 ^ j) 60 \<Longrightarrow> list_all (\<lambda>e. \<not> connect_ok e) envs \<Longrightarrow>
   fst (stream_loop envs s) = map (\<lambda>k. ReconnectWait (min (5 * 2 ^ k) 60)) [j..<j + length envs]"
proof (induction envs arbitrary: s j)
  case Nil
  then show ?case by simp
next
  case (Cons e envs)
  let ?s1 = "s\<lparr>reconnect_delay := min (reconnect_delay s * 2) 60\<rparr>"
  from Cons.prems have it: "stream_iteration e s = ([ReconnectWait (min (5 * 2 ^ j) 60)], ?s1)"
    by (simp add: stream_iteration_def)
  have d1: "reconnect_delay ?s1 = min (5 * 2 ^ Suc j) 60"
    using Cons.prems(2) ladder_step [of j] by simp
  from Cons.prems have rest: "list_all (\<lambda>e. \<not> connect_ok e) envs" by simp
  from Cons.prems have nc: "\<not> is_connected ?s1" by simp
  have ih: "fst (stream_loop envs ?s1) = map (\<lambda>k. ReconnectWait (min (5 * 2 ^ k) 60)) [Suc j..<Suc j + length envs]"
    by (rule Cons.IH [OF nc d1 rest])
  have "[j..<j + length (e # envs)] = j # [Suc j..<Suc j + length envs]"
    by (simp add: upt_rec)
  then show ?case using it ih by (simp add: split_beta)
qed

lemma process_delay: "reconnect_delay (snd (process_and_pause e s)) = reconnect_delay s"
  by (simp add: process_and_pause_def)

lemma process_no_reconnect: "first_reconnect (fst (process_and_pause e s) @ ws) = first_reconnect ws"
  by (simp add: process_and_pause_def)

lemma first_reconnect_5:
  "reconnect_delay s = 5 \<Longrightarrow> first_reconnect (fst (stream_loop envs s)) \<in> {None, Some 5}"
proof (induction envs arbitrary: s)
  case Nil
  then show ?case by simp
next
  case (Cons e envs)
  show ?case
  proof (cases "\<not> is_connected s \<and> \<not> connect_ok e")
    case True
    with Cons.prems show ?thesis by (simp add: stream_iteration_def split_beta)
  next
    case False
    define s0 where "s0 = (if is_connected s then s else s\<lparr>is_connected := True, reconnect_delay := 5\<rparr>)"
    from False have it: "stream_iteration e s = process_and_pause e s0"
      by (auto simp: stream_iteration_def s0_def)
    from Cons.prems have "reconnect_delay s0 = 5" by (simp add: s0_def)
    then have "reconnect_delay (snd (process_and_pause e s0)) = 5" by (simp add: process_delay)
    from Cons.IH [OF this] show ?thesis
      by (simp add: it split_beta process_no_reconnect)
  qed
qed

text \<open>
  Claim C9. From a disconnected stream whose delay is 5 (the value at the start of the loop
  and after every successful connect), \<open>n\<close> consecutive connect failures sleep
  \<open>min (5 * 2^k) 60\<close> seconds for \<open>k = 0, ..., n - 1\<close>, that is 5, 10, 20, 40, 60, 60,
  ...; a successful connect sets the delay to 5, and the next reconnection wait after it, if
  any, is 5 seconds.
\<close>

theorem reconnect_backoff:
  "(\<not> is_connected s \<and> reconnect_delay s = 5 \<and> list_all (\<lambda>e. \<not> connect_ok e) envs \<longrightarrow>
      fst (stream_loop envs s) = map (\<lambda>k. ReconnectWait (min (5 * 2 ^ k) 60)) [0..<length envs])
   \<and> map (\<lambda>k. min (5 * 2 ^ k) (60::int)) [0..<6] = [5, 10, 20, 40, 60, 60]
   \<and> (4 \<le> k \<longrightarrow> min (5 * 2 ^ k) (60::int) = 60)
   \<and> reconnect_delay (stream_loop_init up) = 5
   \<and> (\<not> is_connected s \<and> connect_ok e \<longrightarrow>
        reconnect_delay (snd (stream_iteration e s)) = 5
        \<and> first_reconnect (fst (stream_loop (e # more_envs) s)) \<in> {None, Some 5})"
proof -
  have a: "\<not> is_connected s \<and> reconnect_delay s = 5 \<and> list_all (\<lambda>e. \<not> connect_ok e) envs \<longrightarrow>
      fst (stream_loop envs s) = map (\<lambda>k. ReconnectWait (min (5 * 2 ^ k) 60)) [0..<length envs]"
    using failures_from [of s 0 envs] by simp
  have b: "map (\<lambda>k. min (5 * 2 ^ k) (60::int)) [0..<6] = [5, 10, 20, 40, 60, 60]"
    by (simp add: upt_rec)
  have c: "4 \<le> k \<longrightarrow> min (5 * 2 ^ k) (60::int) = 60"
  proof
    assume "4 \<le> k"
    then have "(2::int) ^ 4 \<le> 2 ^ k" by (intro power_increasing) simp_all
    then show "min (5 * 2 ^ k) (60::int) = 60" by simp
  qed
  have d: "reconnect_delay (stream_loop_init up) = 5" by (simp add: stream_loop_init_def)
  have e: "\<not> is_connected s \<and> connect_ok e \<longrightarrow>
        reconnect_delay (snd (stream_iteration e s)) = 5
        \<and> first_reconnect (fst (stream_loop (e # more_envs) s)) \<in> {None, Some 5}"
  proof
    assume h: "\<not> is_connected s \<and> connect_ok e"
    let ?s0 = "s\<lparr>is_connected := True, reconnect_delay := 5\<rparr>"
    from h have it: "stream_iteration e s = process_and_pause e ?s0"
      by (simp add: stream_iteration_def)
    have d5: "reconnect_delay (snd (process_and_pause e ?s0)) = 5" by (simp add: process_delay)
    from first_reconnect_5 [OF d5, of more_envs]
    show "reconnect_delay (snd (stream_iteration e s)) = 5
        \<and> first_reconnect (fst (stream_loop (e # more_envs) s)) \<in> {None, Some 5}"
      using d5 by (simp add: it split_beta process_no_reconnect)
  qed
  show ?thesis using a b c d e by blast
qed

theorem reconnect_backoff_witness:
  "fst (stream_loop (replicate 6 unreachable) (stream_loop_init False))
   = [ReconnectWait 5, ReconnectWait 10, ReconnectWait 20, ReconnectWait 40,
      ReconnectWait 60, ReconnectWait 60]"
proof -
  have p: "\<not> is_connected (stream_loop_init False) \<and> reconnect_delay (stream_loop_init False) = 5
           \<and> list_all (\<lambda>e. \<not> connect_ok e) (replicate 6 unreachable)"
    by (simp add: stream_loop_init_def unreachable_def list_all_iff)
  from reconnect_backoff [of "stream_loop_init False" "replicate 6 unreachable"]
  have "\<not> is_connected (stream_loop_init False) \<and> reconnect_delay (stream_loop_init False) = 5
           \<and> list_all (\<lambda>e. \<not> connect_ok e) (replicate 6 unreachable) \<longrightarrow>
        fst (stream_loop (replicate 6 unreachable) (stream_loop_init False))
        = map (\<lambda>k. ReconnectWait (min (5 * 2 ^ k) 60)) [0..<length (replicate 6 unreachable)]"
    by blast
  with p have "fst (stream_loop (replicate 6 unreachable) (stream_loop_init False))
        = map (\<lambda>k. ReconnectWait (min (5 * 2 ^ k) 60)) [0..<length (replicate 6 unreachable)]"
    by blast
  then show ?thesis by (simp add: upt_rec)
qed

section \<open>Properties of the configuration\<close>

lemma str_554: "str_int 554 = ''554''" by (simp add: str_int_def)
lemma str_3: "str_int 3 = ''3''" by (simp add: str_int_def)

lemma format_default:
  "py_format default_rtsp_template
     [(''username'', PyStr ''admin''), (''password'', PyStr ''pw''), (''ip'', PyStr ''10.0.0.5''),
      (''port'', PyInt 554), (''channel'', PyInt 3)]
   = Inr ''rtsp://admin:pw@10.0.0.5:554/cam/realmonitor?channel=3&subtype=0''"
  by (simp add: py_format_def default_rtsp_template_def lookup_field_def prepend_def str_554 str_3)

lemma nvrs_built: "build_nvrs [nvr_entry] = Inr [nvr_1]"
  by (simp add: nvr_from_cloud_def nvr_entry_def nvr_1_def)

lemma cameras_built_once: "build_cameras py_format [] [nvr_camera] = Inr [gate_camera []]"
  by (simp add: camera_from_cloud_def build_nvr_rtsp_url_def nvr_camera_def gate_camera_def)

lemma cameras_built_twice:
  "build_cameras py_format [nvr_1] [nvr_camera]
   = Inr [gate_camera ''rtsp://admin:pw@10.0.0.5:554/cam/realmonitor?channel=3&subtype=0'']"
proof -
  have "build_nvr_rtsp_url py_format [nvr_1] nvr_camera
        = Inr ''rtsp://admin:pw@10.0.0.5:554/cam/realmonitor?channel=3&subtype=0''"
    using format_default by (simp add: build_nvr_rtsp_url_def nvr_1_def nvr_camera_def)
  then have "camera_from_cloud py_format [nvr_1] nvr_camera
        = Inr (gate_camera ''rtsp://admin:pw@10.0.0.5:554/cam/realmonitor?channel=3&subtype=0'')"
    by (simp add: camera_from_cloud_def nvr_camera_def gate_camera_def)
  then show ?thesis by simp
qed

lemma document_fields:
  "cloud_cameras nvr_document = Some [nvr_camera]" "cloud_nvrs nvr_document = Some [nvr_entry]"
  "faceEncodings nvr_document = None"
  "schoolConfig nvr_document = Some \<lparr>enableFaceRecognition = None, enableDisciplineAlerts = None,
                                        attendanceConfidenceThreshold = Some 90,
                                        fightConfidenceThreshold = None\<rparr>"
  by (simp_all add: nvr_document_def)

lemma sync_once_value: "sync_once = Inr (synced [])"
  by (simp add: sync_once_def update_from_cloud_def update_cameras_def update_nvrs_def update_rest_def
      apply_school_config_def document_fields config_init_def cameras_built_once nvrs_built synced_def
      del: build_cameras.simps build_nvrs.simps)

lemma sync_twice_value:
  "sync_twice = Inr (synced ''rtsp://admin:pw@10.0.0.5:554/cam/realmonitor?channel=3&subtype=0'')"
  unfolding sync_twice_def sync_once_value
  by (simp add: update_from_cloud_def update_cameras_def update_nvrs_def update_rest_def
      apply_school_config_def document_fields cameras_built_twice nvrs_built synced_def
      del: build_cameras.simps build_nvrs.simps)

text \<open>
  Claim C8 says that applying the same document twice gives the configuration that applying
  it once gives. The cameras are built before the NVR list is replaced, so on a fresh
  configuration the first application finds no NVR for the camera and stores an empty URL
  (the camera is not active), and the second application, which sees the NVR list of the
  first, stores the synthesized URL.
\<close>

theorem update_from_cloud_twice_differs:
  "sync_once = Inr (synced [])
   \<and> sync_twice = Inr (synced ''rtsp://admin:pw@10.0.0.5:554/cam/realmonitor?channel=3&subtype=0'')
   \<and> sync_once \<noteq> sync_twice
   \<and> get_active_cameras (synced []) = []"
  by (simp add: sync_once_value sync_twice_value synced_def gate_camera_def get_active_cameras_def)

text \<open>
  What does hold of a second application of the same document: it changes nothing but the
  camera list, so the two thresholds, the flags, the NVR list and the face encodings are the
  same after one and after two applications; and it changes nothing at all when the first
  application left the NVR list as it was.
\<close>

lemma update_cameras_frame:
  assumes "update_cameras fmt cloud c = Inr a"
  shows "\<exists>cs. a = c\<lparr>cameras := cs\<rparr>
          \<and> (cloud_cameras cloud = None \<longrightarrow> cs = cameras c)
          \<and> (\<forall>cams. cloud_cameras cloud = Some cams \<longrightarrow> build_cameras fmt (nvrs c) cams = Inr cs)"
  using assms by (auto simp: update_cameras_def split: option.splits sum.splits)

lemma update_nvrs_frame:
  assumes "update_nvrs cloud a = Inr b"
  shows "\<exists>ns. b = a\<lparr>nvrs := ns\<rparr>
          \<and> (cloud_nvrs cloud = None \<longrightarrow> ns = nvrs a)
          \<and> (\<forall>l. cloud_nvrs cloud = Some l \<longrightarrow> build_nvrs l = Inr ns)"
  using assms by (auto simp: update_nvrs_def split: option.splits sum.splits)

lemma update_rest_cameras:
  "update_rest cloud (x\<lparr>cameras := cs\<rparr>) = (update_rest cloud x)\<lparr>cameras := cs\<rparr>"
  by (simp add: update_rest_def apply_school_config_def Let_def split: option.splits)

lemma update_rest_nvrs:
  "update_rest cloud (x\<lparr>nvrs := ns\<rparr>) = (update_rest cloud x)\<lparr>nvrs := ns\<rparr>"
  by (simp add: update_rest_def apply_school_config_def Let_def split: option.splits)

lemma update_rest_idem: "update_rest cloud (update_rest cloud x) = update_rest cloud x"
  by (simp add: update_rest_def apply_school_config_def Let_def split: option.splits)

lemma update_from_cloud_shape:
  assumes "update_from_cloud fmt cloud c = Inr c1"
  shows "\<exists>cs ns. c1 = (update_rest cloud c)\<lparr>cameras := cs, nvrs := ns\<rparr>
          \<and> (cloud_cameras cloud = None \<longrightarrow> cs = cameras c)
          \<and> (\<forall>cams. cloud_cameras cloud = Some cams \<longrightarrow> build_cameras fmt (nvrs c) cams = Inr cs)
          \<and> (cloud_nvrs cloud = None \<longrightarrow> ns = nvrs c)
          \<and> (\<forall>l. cloud_nvrs cloud = Some l \<longrightarrow> build_nvrs l = Inr ns)"
proof -
  from assms obtain a b where a: "update_cameras fmt cloud c = Inr a"
    and b: "update_nvrs cloud a = Inr b" and c1: "c1 = update_rest cloud b"
    by (auto simp: update_from_cloud_def split: sum.splits)
  from update_cameras_frame [OF a] obtain cs where cs: "a = c\<lparr>cameras := cs\<rparr>"
    and cs1: "cloud_cameras cloud = None \<longrightarrow> cs = cameras c"
    and cs2: "\<forall>cams. cloud_cameras cloud = Some cams \<longrightarrow> build_cameras fmt (nvrs c) cams = Inr cs"
    by (elim exE conjE) (rule that)
  from update_nvrs_frame [OF b] obtain ns where ns: "b = a\<lparr>nvrs := ns\<rparr>"
    and ns1: "cloud_nvrs cloud = None \<longrightarrow> ns = nvrs a"
    and ns2: "\<forall>l. cloud_nvrs cloud = Some l \<longrightarrow> build_nvrs l = Inr ns"
    by (elim exE conjE) (rule that)
  have eq: "c1 = (update_rest cloud c)\<lparr>cameras := cs, nvrs := ns\<rparr>"
    unfolding c1 ns cs update_rest_nvrs update_rest_cameras ..
  have "nvrs a = nvrs c" unfolding cs by simp
  with ns1 have ns1': "cloud_nvrs cloud = None \<longrightarrow> ns = nvrs c" by simp
  show ?thesis
    by (rule exI [of _ cs], rule exI [of _ ns]) (intro conjI eq cs1 cs2 ns1' ns2)
qed


lemma update_from_cloud_twice_rest:
  assumes one: "update_from_cloud fmt cloud c = Inr c1"
    and two: "update_from_cloud fmt cloud c1 = Inr c2"
  shows "c2 = c1\<lparr>cameras := cameras c2\<rparr>"
proof -
  from update_from_cloud_shape [OF one] obtain cs ns
    where c1: "c1 = (update_rest cloud c)\<lparr>cameras := cs, nvrs := ns\<rparr>"
      and "cloud_cameras cloud = None \<longrightarrow> cs = cameras c"
      and "\<forall>cams. cloud_cameras cloud = Some cams \<longrightarrow> build_cameras fmt (nvrs c) cams = Inr cs"
      and "cloud_nvrs cloud = None \<longrightarrow> ns = nvrs c"
      and ns2: "\<forall>l. cloud_nvrs cloud = Some l \<longrightarrow> build_nvrs l = Inr ns"
    by (elim exE conjE) (rule that)
  from update_from_cloud_shape [OF two] obtain cs' ns'
    where c2: "c2 = (update_rest cloud c1)\<lparr>cameras := cs', nvrs := ns'\<rparr>"
      and "cloud_cameras cloud = None \<longrightarrow> cs' = cameras c1"
      and "\<forall>cams. cloud_cameras cloud = Some cams \<longrightarrow> build_cameras fmt (nvrs c1) cams = Inr cs'"
      and ns1': "cloud_nvrs cloud = None \<longrightarrow> ns' = nvrs c1"
      and ns2': "\<forall>l. cloud_nvrs cloud = Some l \<longrightarrow> build_nvrs l = Inr ns'"
    by (elim exE conjE) (rule that)
  have n1: "nvrs c1 = ns" unfolding c1 by simp
  have same: "ns' = ns"
  proof (cases "cloud_nvrs cloud")
    case None
    with ns1' n1 show ?thesis by simp
  next
    case (Some l)
    from ns2 Some have "build_nvrs l = Inr ns" by simp
    moreover from ns2' Some have "build_nvrs l = Inr ns'" by simp
    ultimately show ?thesis by simp
  qed
  have r1: "update_rest cloud c1 = c1"
    unfolding c1 update_rest_nvrs update_rest_cameras update_rest_idem ..
  have "c2 = c1\<lparr>cameras := cs', nvrs := ns\<rparr>" unfolding c2 r1 same ..
  also have "c1\<lparr>cameras := cs', nvrs := ns\<rparr> = c1\<lparr>cameras := cs'\<rparr>"
    unfolding c1 by simp
  finally have e: "c2 = c1\<lparr>cameras := cs'\<rparr>" .
  have "cameras c2 = cameras (c1\<lparr>cameras := cs'\<rparr>)" by (rule arg_cong [OF e])
  also have "\<dots> = cs'" by simp
  finally have k: "cameras c2 = cs'" .
  show ?thesis unfolding k by (rule e)
qed


lemma update_from_cloud_thresholds:
  assumes "update_from_cloud fmt cloud c = Inr c1" "update_from_cloud fmt cloud c1 = Inr c2"
  shows "face_confidence_threshold c2 = face_confidence_threshold c1
         \<and> discipline_confidence_threshold c2 = discipline_confidence_threshold c1
         \<and> nvrs c2 = nvrs c1 \<and> face_encodings c2 = face_encodings c1
         \<and> school_config c2 = school_config c1"
proof -
  define cs where "cs = cameras c2"
  from update_from_cloud_twice_rest [OF assms] have e: "c2 = c1\<lparr>cameras := cs\<rparr>"
    unfolding cs_def .
  show ?thesis unfolding e by simp
qed

lemma update_from_cloud_same_nvrs:
  assumes one: "update_from_cloud fmt cloud c = Inr c1"
    and two: "update_from_cloud fmt cloud c1 = Inr c2"
    and same: "nvrs c1 = nvrs c"
  shows "c2 = c1"
proof -
  from update_from_cloud_shape [OF one] obtain cs ns
    where c1: "c1 = (update_rest cloud c)\<lparr>cameras := cs, nvrs := ns\<rparr>"
      and "cloud_cameras cloud = None \<longrightarrow> cs = cameras c"
      and cs2: "\<forall>cams. cloud_cameras cloud = Some cams \<longrightarrow> build_cameras fmt (nvrs c) cams = Inr cs"
      and "cloud_nvrs cloud = None \<longrightarrow> ns = nvrs c"
      and "\<forall>l. cloud_nvrs cloud = Some l \<longrightarrow> build_nvrs l = Inr ns"
    by (elim exE conjE) (rule that)
  from update_from_cloud_shape [OF two] obtain cs' ns'
    where c2: "c2 = (update_rest cloud c1)\<lparr>cameras := cs', nvrs := ns'\<rparr>"
      and cs1': "cloud_cameras cloud = None \<longrightarrow> cs' = cameras c1"
      and cs2': "\<forall>cams. cloud_cameras cloud = Some cams \<longrightarrow> build_cameras fmt (nvrs c1) cams = Inr cs'"
      and "cloud_nvrs cloud = None \<longrightarrow> ns' = nvrs c1"
      and "\<forall>l. cloud_nvrs cloud = Some l \<longrightarrow> build_nvrs l = Inr ns'"
    by (elim exE conjE) (rule that)
  have k1: "cameras c1 = cs" unfolding c1 by simp
  have eq: "cs' = cs"
  proof (cases "cloud_cameras cloud")
    case None
    with cs1' k1 show ?thesis by simp
  next
    case (Some cams)
    from cs2 Some have "build_cameras fmt (nvrs c) cams = Inr cs" by simp
    moreover from cs2' Some same have "build_cameras fmt (nvrs c) cams = Inr cs'" by simp
    ultimately show ?thesis by simp
  qed
  have kc: "cameras c2 = cs" unfolding c2 eq by simp
  have "c2 = c1\<lparr>cameras := cameras c2\<rparr>" by (rule update_from_cloud_twice_rest [OF one two])
  also have "\<dots> = c1\<lparr>cameras := cameras c1\<rparr>" unfolding kc k1 ..
  also have "\<dots> = c1" by simp
  finally show ?thesis .
qed

lemma build_cameras_nth:
  "build_cameras fmt ns cams = Inr cs \<Longrightarrow>
     length cs = length cams \<and> (\<forall>k < length cams. camera_from_cloud fmt ns (cams ! k) = Inr (cs ! k))"
proof (induction cams arbitrary: cs)
  case Nil
  then show ?case by simp
next
  case (Cons cam cams)
  from Cons.prems obtain c cs' where c: "camera_from_cloud fmt ns cam = Inr c"
    and cs': "build_cameras fmt ns cams = Inr cs'" and eq: "cs = c # cs'"
    by (auto split: sum.splits)
  from Cons.IH [OF cs'] have ih: "length cs' = length cams"
    "\<forall>k < length cams. camera_from_cloud fmt ns (cams ! k) = Inr (cs' ! k)" by simp_all
  show ?case
  proof (intro conjI allI impI)
    show "length cs = length (cam # cams)" using ih eq by simp
  next
    fix k assume "k < length (cam # cams)"
    then show "camera_from_cloud fmt ns ((cam # cams) ! k) = Inr (cs ! k)"
      using c ih eq by (cases k) simp_all
  qed
qed

lemma find_nvr_None: "(\<forall>n \<in> set ns. Some (nvr_id n) \<noteq> i) \<Longrightarrow> find_nvr ns i = None"
  by (induction ns) auto

lemma camera_from_cloud_no_nvr:
  assumes "camera_from_cloud fmt ns cam = Inr c"
    and "rtspUrl cam = None \<or> rtspUrl cam = Some []"
    and "\<forall>n \<in> set ns. Some (nvr_id n) \<noteq> nvrId cam"
  shows "rtsp_url c = [] \<and> Some (cam_id c) = c_id cam
         \<and> enabled c = (case isActive cam of None \<Rightarrow> True | Some b \<Rightarrow> b)"
  using assms find_nvr_None [of ns "nvrId cam"]
  by (auto simp: camera_from_cloud_def build_nvr_rtsp_url_def Let_def split: option.splits sum.splits if_splits)

text \<open>
  Claim C10. When \<^verbatim>\<open>update_from_cloud\<close> returns, the camera built from an entry whose
  \<^verbatim>\<open>rtspUrl\<close> is absent or empty and whose \<^verbatim>\<open>nvrId\<close> is the id of no NVR in the list the
  configuration held before the call is stored, at the entry's position, with an empty
  \<^verbatim>\<open>rtsp_url\<close>; \<^verbatim>\<open>get_active_cameras\<close> leaves it out, whatever its enabled flag is.
\<close>

theorem camera_without_nvr_inactive:
  assumes "update_from_cloud fmt cloud c = Inr c'"
    and "cloud_cameras cloud = Some cams" and "k < length cams"
    and "rtspUrl (cams ! k) = None \<or> rtspUrl (cams ! k) = Some []"
    and "\<forall>n \<in> set (nvrs c). Some (nvr_id n) \<noteq> nvrId (cams ! k)"
  shows "length (cameras c') = length cams
         \<and> Some (cam_id (cameras c' ! k)) = c_id (cams ! k)
         \<and> rtsp_url (cameras c' ! k) = []
         \<and> enabled (cameras c' ! k) = (case isActive (cams ! k) of None \<Rightarrow> True | Some b \<Rightarrow> b)
         \<and> cameras c' ! k \<notin> set (get_active_cameras c')"
proof -
  from assms(1,2) obtain cs where cs: "build_cameras fmt (nvrs c) cams = Inr cs"
    and cam: "cameras c' = cs"
    by (auto simp: update_from_cloud_def update_cameras_def update_nvrs_def update_rest_def
        apply_school_config_def Let_def split: option.splits sum.splits)
  from build_cameras_nth [OF cs] assms(3)
  have len: "length cs = length cams" and k: "camera_from_cloud fmt (nvrs c) (cams ! k) = Inr (cs ! k)"
    by simp_all
  from camera_from_cloud_no_nvr [OF k assms(4,5)]
  have r: "rtsp_url (cs ! k) = [] \<and> Some (cam_id (cs ! k)) = c_id (cams ! k)
         \<and> enabled (cs ! k) = (case isActive (cams ! k) of None \<Rightarrow> True | Some b \<Rightarrow> b)" .
  then have "cs ! k \<notin> set (get_active_cameras c')" by (simp add: get_active_cameras_def)
  with r len cam show ?thesis by simp
qed


theorem camera_without_nvr_inactive_witness:
  "rtsp_url (cameras (synced []) ! 0) = []
   \<and> enabled (cameras (synced []) ! 0)
   \<and> cameras (synced []) ! 0 \<notin> set (get_active_cameras (synced []))"
proof -
  have u: "update_from_cloud py_format nvr_document config_init = Inr (synced [])"
    using sync_once_value by (simp add: sync_once_def)
  have k: "(0::nat) < length [nvr_camera]" by simp
  have url: "rtspUrl ([nvr_camera] ! 0) = None \<or> rtspUrl ([nvr_camera] ! 0) = Some []"
    by (simp add: nvr_camera_def)
  have none: "\<forall>n \<in> set (nvrs config_init). Some (nvr_id n) \<noteq> nvrId ([nvr_camera] ! 0)"
    by (simp add: config_init_def)
  from camera_without_nvr_inactive [OF u document_fields(1) k url none]
  show ?thesis by (simp add: nvr_camera_def)
qed

section \<open>Properties of the marking operations\<close>

text \<open>
  The rows after each operation.
\<close>

lemma rows_mark_processed:
  "rows (mark_processed now ids q)
   = map (\<lambda>r. if row_id r \<in> set ids then r\<lparr>status := Processed, processed_at := Some now\<rparr> else r) (rows q)"
  by (cases "ids = []") (simp_all add: mark_processed_def Let_def)

lemma rows_mark_failed:
  "rows (mark_failed ids q)
   = map (\<lambda>r. if row_id r \<in> set ids
               then r\<lparr>retry_count := retry_count r + 1,
                      status := (if retry_count r \<ge> 4 then Failed else Pending)\<rparr>
               else r) (rows q)"
  by (cases "ids = []") (simp_all add: mark_failed_def)

lemma rows_enqueue:
  "rows (snd (enqueue e now q))
   = rows q @ [\<lparr>row_id = next_row_id q, row_type = ev_type e, camera_id = ev_camera_id e,
                 timestamp = ev_timestamp e, data = ev_data e, status = Pending,
                 retry_count = 0, created_at = now, processed_at = None\<rparr>]"
  by (simp add: enqueue_def Let_def)

lemma seq_ops:
  "seq (mark_processed now ids q) = seq q" "seq (mark_failed ids q) = seq q"
  "seq (cleanup_old cutoff q) = seq q" "seq (snd (enqueue e now q)) = next_row_id q"
  by (simp_all add: mark_processed_def mark_failed_def cleanup_old_def enqueue_def Let_def)

lemma ids_mark_processed: "map row_id (rows (mark_processed now ids q)) = map row_id (rows q)"
  by (simp add: rows_mark_processed o_def)

lemma ids_mark_failed: "map row_id (rows (mark_failed ids q)) = map row_id (rows q)"
  by (simp add: rows_mark_failed o_def)

lemma fold_max_ge: "(a::int) \<le> fold max xs a"
  by (induction xs arbitrary: a) (auto intro: order_trans [OF max.cobounded2])

lemma fold_max_mem: "x \<in> set xs \<Longrightarrow> (x::int) \<le> fold max xs a"
proof (induction xs arbitrary: a)
  case Nil
  then show ?case by simp
next
  case (Cons y ys)
  show ?case
  proof (cases "x = y")
    case True
    have "x \<le> max y a" using True by simp
    also have "\<dots> \<le> fold max ys (max y a)" by (rule fold_max_ge)
    finally show ?thesis by simp
  next
    case False
    with Cons.prems have "x \<in> set ys" by simp
    from Cons.IH [OF this] show ?thesis by simp
  qed
qed

lemma next_row_id_fresh: "r \<in> set (rows q) \<Longrightarrow> row_id r < next_row_id q"
  using fold_max_mem [of "row_id r" "map row_id (rows q)" 0]
  by (simp add: next_row_id_def max_row_id_def)

lemma next_row_id_seq: "seq q < next_row_id q"
  by (simp add: next_row_id_def)

text \<open>
  Every operation keeps the table well formed: ids stay distinct and at most the counter.
\<close>

lemma well_formed_ids:
  "well_formed q \<longleftrightarrow>
     distinct (map row_id (rows q)) \<and> (\<forall>i \<in> set (map row_id (rows q)). i \<le> seq q)"
  by (auto simp: well_formed_def list_all_iff)

lemma well_formed_apply_op: "well_formed q \<Longrightarrow> well_formed (apply_op c q)"
proof (cases c)
  case (Enqueue e now)
  assume wf: "well_formed q"
  have fresh: "next_row_id q \<notin> row_id ` set (rows q)"
  proof
    assume "next_row_id q \<in> row_id ` set (rows q)"
    then obtain r where "r \<in> set (rows q)" "row_id r = next_row_id q" by auto
    with next_row_id_fresh [of r q] show False by simp
  qed
  have le: "\<forall>r \<in> set (rows q). row_id r \<le> next_row_id q"
    using next_row_id_fresh [of _ q] by (auto intro: less_imp_le)
  from wf fresh le show ?thesis
    by (simp add: Enqueue well_formed_def rows_enqueue seq_ops list_all_iff)
next
  case (MarkProcessed now ids)
  assume "well_formed q"
  then show ?thesis
    unfolding well_formed_ids MarkProcessed apply_op.simps ids_mark_processed seq_ops .
next
  case (MarkFailed ids)
  assume "well_formed q"
  then show ?thesis
    unfolding well_formed_ids MarkFailed apply_op.simps ids_mark_failed seq_ops .
next
  case (CleanupOld cutoff)
  assume "well_formed q"
  then show ?thesis
    by (simp add: CleanupOld well_formed_def cleanup_old_def list_all_iff distinct_map_filter)
qed

lemma well_formed_init: "well_formed init_db"
  by (simp add: well_formed_def init_db_def)



lemma q_done_rows:
  "rows q_done = [\<lparr>row_id = 1, row_type = ''ATTENDANCE'', camera_id = 1,
                   timestamp = ''2026-01-01T10:00:00'', data = ''{}'', status = Processed,
                   retry_count = 0, created_at = ''2026-01-01 10:00:00'',
                   processed_at = Some ''2026-01-01T10:00:07''\<rparr>]"
  by (simp add: q_done_def rows_mark_processed q_one_rows)

lemma q_retry4_rows:
  "rows q_retry4 = [\<lparr>row_id = 1, row_type = ''ATTENDANCE'', camera_id = 1,
                     timestamp = ''2026-01-01T10:00:00'', data = ''{}'', status = Pending,
                     retry_count = 4, created_at = ''2026-01-01 10:00:00'', processed_at = None\<rparr>]"
  by (simp add: q_retry4_def run_ops_def rows_mark_failed q_one_rows)

lemma q_retry4_well_formed: "well_formed q_retry4"
proof -
  have "seq q_retry4 = 1" by (simp add: q_retry4_def run_ops_def seq_ops q_one_seq)
  then show ?thesis by (simp add: well_formed_def q_retry4_rows)
qed

lemma q_failed_rows:
  "rows q_failed = [\<lparr>row_id = 1, row_type = ''ATTENDANCE'', camera_id = 1,
                     timestamp = ''2026-01-01T10:00:00'', data = ''{}'', status = Failed,
                     retry_count = 5, created_at = ''2026-01-01 10:00:00'', processed_at = None\<rparr>]"
  by (simp add: q_failed_def rows_mark_failed q_retry4_rows)


lemma cleanup_old_keeps:
  "set (rows (cleanup_old cutoff q)) \<subseteq> set (rows q)
   \<and> (\<forall>r \<in> set (rows q). status r = Pending \<longrightarrow> r \<in> set (rows (cleanup_old cutoff q)))"
  by (auto simp: cleanup_old_def)

text \<open>
  Claim C2, as the code has it. \<^verbatim>\<open>enqueue\<close> changes no existing row;
  \<^verbatim>\<open>mark_processed\<close> and \<^verbatim>\<open>mark_failed\<close> change no row whose id is not in the list they
  are given, whatever its status; none of the three deletes a row. A row whose id is in the
  list is rewritten whatever its status: neither UPDATE has a condition on \<^verbatim>\<open>status\<close>.
\<close>

theorem rows_outside_call_unchanged:
  assumes "k < length (rows q)"
  shows "rows (snd (enqueue e t q)) ! k = rows q ! k
       \<and> length (rows (snd (enqueue e t q))) = Suc (length (rows q))
       \<and> length (rows (mark_processed now ids q)) = length (rows q)
       \<and> length (rows (mark_failed ids q)) = length (rows q)
       \<and> (row_id (rows q ! k) \<notin> set ids \<longrightarrow>
             rows (mark_processed now ids q) ! k = rows q ! k
           \<and> rows (mark_failed ids q) ! k = rows q ! k)
       \<and> (row_id (rows q ! k) \<in> set ids \<longrightarrow>
             rows (mark_processed now ids q) ! k
               = (rows q ! k)\<lparr>status := Processed, processed_at := Some now\<rparr>
           \<and> rows (mark_failed ids q) ! k
               = (rows q ! k)\<lparr>retry_count := retry_count (rows q ! k) + 1,
                               status := (if retry_count (rows q ! k) \<ge> 4 then Failed else Pending)\<rparr>)"
  using assms by (simp add: rows_enqueue rows_mark_processed rows_mark_failed nth_append)

theorem rows_outside_call_unchanged_witness:
  "rows (snd (enqueue ev_b ''2026-01-01 10:00:05'' q_done)) ! 0 = rows q_done ! 0
   \<and> rows (mark_processed ''2026-01-01T10:00:12'' [2] q_done) ! 0 = rows q_done ! 0
   \<and> rows (mark_failed [2] q_done) ! 0 = rows q_done ! 0
   \<and> status (rows q_done ! 0) = Processed"
proof -
  have k: "0 < length (rows q_done)" by (simp add: q_done_rows)
  have n: "row_id (rows q_done ! 0) \<notin> set [2]" by (simp add: q_done_rows)
  have p: "status (rows q_done ! 0) = Processed" by (simp add: q_done_rows)
  from rows_outside_call_unchanged [where e = ev_b and t = "''2026-01-01 10:00:05''"
      and now = "''2026-01-01T10:00:12''" and ids = "[2]", OF k]
  have "rows (snd (enqueue ev_b ''2026-01-01 10:00:05'' q_done)) ! 0 = rows q_done ! 0"
    and "row_id (rows q_done ! 0) \<notin> set [2] \<longrightarrow>
             rows (mark_processed ''2026-01-01T10:00:12'' [2] q_done) ! 0 = rows q_done ! 0
           \<and> rows (mark_failed [2] q_done) ! 0 = rows q_done ! 0"
    by blast+
  with n p show ?thesis by blast
qed

text \<open>
  Claim C2 as stated fails: \<^verbatim>\<open>mark_failed\<close> with the id of a processed row makes the row
  pending again, with retry count 1.
\<close>

theorem mark_failed_reopens_processed:
  "status (rows q_done ! 0) = Processed
   \<and> row_id (rows q_done ! 0) = 1
   \<and> rows (mark_failed [1] q_done) ! 0 \<noteq> rows q_done ! 0
   \<and> status (rows (mark_failed [1] q_done) ! 0) = Pending
   \<and> retry_count (rows (mark_failed [1] q_done) ! 0) = 1"
  by (simp add: rows_mark_failed q_done_rows)


text \<open>
  Claim C3, as the code has it. \<^verbatim>\<open>mark_processed\<close> has no failing path: it marks every
  row whose id is in the list as processed at \<open>now\<close>, whatever the row's status, leaves the
  other rows as they are, skips ids that name no row, and for a non-empty list adds the length
  of the list to the counter.
\<close>

theorem mark_processed_unconditional:
  "rows (mark_processed now ids q)
     = map (\<lambda>r. if row_id r \<in> set ids then r\<lparr>status := Processed, processed_at := Some now\<rparr> else r)
           (rows q)
   \<and> (ids \<noteq> [] \<longrightarrow> processed_count (mark_processed now ids q) = processed_count q + int (length ids)
                  \<and> stats_processed_count (mark_processed now ids q) = processed_count q + int (length ids))
   \<and> (ids = [] \<longrightarrow> mark_processed now ids q = q)
   \<and> seq (mark_processed now ids q) = seq q"
  by (simp add: rows_mark_processed seq_ops) (simp add: mark_processed_def Let_def)

theorem mark_processed_unconditional_witness:
  "map status (rows (mark_processed ''2026-01-01T10:00:30'' [1, 9] q_failed)) = [Processed]
   \<and> processed_count (mark_processed ''2026-01-01T10:00:30'' [1, 9] q_failed)
       = processed_count q_failed + 2"
proof -
  have ne: "[1, 9] \<noteq> ([] :: int list)" by simp
  from mark_processed_unconditional [of "''2026-01-01T10:00:30''" "[1, 9]" q_failed]
  have r: "rows (mark_processed ''2026-01-01T10:00:30'' [1, 9] q_failed)
     = map (\<lambda>r. if row_id r \<in> set [1, 9] then r\<lparr>status := Processed, processed_at := Some ''2026-01-01T10:00:30''\<rparr> else r)
           (rows q_failed)"
    and c: "[1, 9] \<noteq> ([] :: int list) \<longrightarrow>
       processed_count (mark_processed ''2026-01-01T10:00:30'' [1, 9] q_failed)
         = processed_count q_failed + int (length [1, 9 :: int])
       \<and> stats_processed_count (mark_processed ''2026-01-01T10:00:30'' [1, 9] q_failed)
         = processed_count q_failed + int (length [1, 9 :: int])"
    by blast+
  from c ne have "processed_count (mark_processed ''2026-01-01T10:00:30'' [1, 9] q_failed)
         = processed_count q_failed + int (length [1, 9 :: int])" by blast
  then show ?thesis by (simp add: r q_failed_rows)
qed

text \<open>
  Claim C3 as stated fails: given the id of a row in status failed, \<^verbatim>\<open>mark_processed\<close>
  performs the transition and counts it.
\<close>

theorem mark_processed_accepts_failed:
  "status (rows q_failed ! 0) = Failed
   \<and> status (rows (mark_processed ''2026-01-01T10:00:30'' [1] q_failed) ! 0) = Processed
   \<and> processed_at (rows (mark_processed ''2026-01-01T10:00:30'' [1] q_failed) ! 0)
       = Some ''2026-01-01T10:00:30''
   \<and> processed_count (mark_processed ''2026-01-01T10:00:30'' [1] q_failed)
       = processed_count q_failed + 1"
  by (simp add: rows_mark_processed q_failed_rows) (simp add: mark_processed_def Let_def)



lemma filter_disj_length:
  "(\<forall>x \<in> set xs. \<not> (A x \<and> B x)) \<Longrightarrow>
     length (filter (\<lambda>x. A x \<or> B x) xs) = length (filter A xs) + length (filter B xs)"
  by (induction xs) auto

lemma count_marked:
  assumes "distinct (map row_id rs)" "distinct ids" "set ids \<subseteq> row_id ` set rs"
  shows "length (filter (\<lambda>r. row_id r \<in> set ids) rs) = length ids"
proof -
  let ?hit = "filter (\<lambda>i. i \<in> set ids) (map row_id rs)"
  have d: "distinct ?hit" using assms(1) by (rule distinct_filter)
  have "length (filter (\<lambda>r. row_id r \<in> set ids) rs) = length ?hit"
    by (simp add: filter_map o_def)
  also have "\<dots> = card (set ?hit)"
    using d by (rule distinct_card [symmetric])
  also have "set ?hit = set ids" using assms(3) by auto
  also have "card (set ids) = length ids" using assms(2) by (rule distinct_card)
  finally show ?thesis .
qed

lemma row_by_id:
  assumes "distinct (map row_id rs)" "r \<in> set rs" "r' \<in> set rs" "row_id r = row_id r'"
  shows "r = r'"
  using assms by (meson distinct_map inj_onD)

lemma count_after_mark_processed:
  assumes wf: "well_formed q" and call: "drain_call (MarkProcessed now ids) q"
  shows "count_status Processed (mark_processed now ids q) = count_status Processed q + length ids"
proof -
  from wf have dist: "distinct (map row_id (rows q))" by (simp add: well_formed_def)
  from call have dids: "distinct ids"
    and pend: "\<forall>i \<in> set ids. i \<in> set (ids_with_status Pending q)"
    by (simp_all add: list_all_iff)
  have pending: "status r = Pending" if r: "r \<in> set (rows q)" "row_id r \<in> set ids" for r
  proof -
    from pend r(2) obtain r' where r': "r' \<in> set (rows q)" "status r' = Pending" "row_id r' = row_id r"
      by (auto simp: ids_with_status_def)
    from row_by_id [OF dist r(1) r'(1)] r'(3) have "r = r'" by simp
    with r'(2) show ?thesis by simp
  qed
  have sub: "set ids \<subseteq> row_id ` set (rows q)"
    using pend by (auto simp: ids_with_status_def)
  let ?f = "\<lambda>r. if row_id r \<in> set ids then r\<lparr>status := Processed, processed_at := Some now\<rparr> else r"
  have "count_status Processed (mark_processed now ids q)
        = length (filter (\<lambda>r. status r = Processed) (map ?f (rows q)))"
    unfolding count_status_def rows_mark_processed ..
  also have "\<dots> = length (filter ((\<lambda>r. status r = Processed) \<circ> ?f) (rows q))"
    unfolding filter_map length_map ..
  also have "filter ((\<lambda>r. status r = Processed) \<circ> ?f) (rows q)
        = filter (\<lambda>r. row_id r \<in> set ids \<or> status r = Processed) (rows q)"
    by (rule filter_cong) auto
  also have "length (filter (\<lambda>r. row_id r \<in> set ids \<or> status r = Processed) (rows q))
                = length (filter (\<lambda>r. row_id r \<in> set ids) (rows q))
                  + length (filter (\<lambda>r. status r = Processed) (rows q))"
    using pending by (intro filter_disj_length) auto
  also have "length (filter (\<lambda>r. row_id r \<in> set ids) (rows q)) = length ids"
    by (rule count_marked [OF dist dids sub])
  finally show ?thesis by (simp add: count_status_def)
qed

lemma count_after_mark_failed:
  assumes call: "drain_call (MarkFailed ids) q"
  shows "count_status Processed (mark_failed ids q) = count_status Processed q"
proof -
  have np: "status r \<noteq> Processed" if "r \<in> set (rows q)" "row_id r \<in> set ids" for r
    using call that by (auto simp: list_all_iff ids_with_status_def)
  have "filter (\<lambda>r. status r = Processed)
          (map (\<lambda>r. if row_id r \<in> set ids
               then r\<lparr>retry_count := retry_count r + 1,
                      status := (if retry_count r \<ge> 4 then Failed else Pending)\<rparr>
               else r) (rows q))
        = map (\<lambda>r. if row_id r \<in> set ids
               then r\<lparr>retry_count := retry_count r + 1,
                      status := (if retry_count r \<ge> 4 then Failed else Pending)\<rparr>
               else r) (filter (\<lambda>r. status r = Processed) (rows q))"
    unfolding filter_map using np by (intro arg_cong [where f = "map _"] filter_cong) auto
  then show ?thesis by (simp add: count_status_def rows_mark_failed)
qed

lemma count_after_enqueue:
  "count_status Processed (snd (enqueue e now q)) = count_status Processed q"
  by (simp add: count_status_def rows_enqueue)

lemma counters_ops:
  "processed_count (snd (enqueue e now q)) = processed_count q"
  "stats_processed_count (snd (enqueue e now q)) = stats_processed_count q"
  "processed_count (mark_failed ids q) = processed_count q"
  "stats_processed_count (mark_failed ids q) = stats_processed_count q"
  "ids \<noteq> [] \<Longrightarrow> processed_count (mark_processed now ids q) = processed_count q + int (length ids)"
  "ids \<noteq> [] \<Longrightarrow> stats_processed_count (mark_processed now ids q) = processed_count q + int (length ids)"
  by (simp_all add: enqueue_def mark_failed_def mark_processed_def Let_def)

lemma coherent_step:
  assumes "well_formed q" "processed_count q = int (count_status Processed q)"
    "stats_processed_count q = processed_count q" "drain_call c q"
  shows "processed_count (apply_op c q) = int (count_status Processed (apply_op c q))
         \<and> stats_processed_count (apply_op c q) = processed_count (apply_op c q)"
proof (cases c)
  case (Enqueue e now)
  with assms show ?thesis by (simp add: counters_ops count_after_enqueue)
next
  case (MarkProcessed now ids)
  show ?thesis
  proof (cases "ids = []")
    case True
    with assms MarkProcessed show ?thesis by (simp add: mark_processed_def)
  next
    case False
    from assms(4) MarkProcessed have "drain_call (MarkProcessed now ids) q" by simp
    from count_after_mark_processed [OF assms(1) this] assms(2,3) False
    show ?thesis by (simp add: MarkProcessed counters_ops)
  qed
next
  case (MarkFailed ids)
  with assms(4) have "drain_call (MarkFailed ids) q" by simp
  from count_after_mark_failed [OF this] assms(2,3)
  show ?thesis by (simp add: MarkFailed counters_ops)
next
  case (CleanupOld cutoff)
  with assms(4) show ?thesis by simp
qed

lemma coherent_run:
  "well_formed q \<Longrightarrow> processed_count q = int (count_status Processed q) \<Longrightarrow>
   stats_processed_count q = processed_count q \<Longrightarrow> drain_history cs q \<Longrightarrow>
   processed_count (run_ops cs q) = int (count_status Processed (run_ops cs q))
   \<and> stats_processed_count (run_ops cs q) = processed_count (run_ops cs q)"
proof (induction cs arbitrary: q)
  case Nil
  then show ?case by (simp add: run_ops_def)
next
  case (Cons c cs)
  from Cons.prems(4) have call: "drain_call c q" and rest: "drain_history cs (apply_op c q)"
    by simp_all
  from coherent_step [OF Cons.prems(1-3) call]
  have a: "processed_count (apply_op c q) = int (count_status Processed (apply_op c q))"
    and b: "stats_processed_count (apply_op c q) = processed_count (apply_op c q)" by simp_all
  have wf: "well_formed (apply_op c q)" by (rule well_formed_apply_op [OF Cons.prems(1)])
  from Cons.IH [OF wf a b rest] show ?case by (simp add: run_ops_def)
qed

text \<open>
  Claim C4, as the code has it. From a fresh queue, after any history of \<^verbatim>\<open>enqueue\<close>,
  \<^verbatim>\<open>mark_processed\<close> and \<^verbatim>\<open>mark_failed\<close> calls in which each \<^verbatim>\<open>mark_processed\<close>
  is given distinct ids of rows pending at that moment and each \<^verbatim>\<open>mark_failed\<close> is given no
  id of a processed row, \<^verbatim>\<open>processed_count\<close> (in memory and in the stats table) is the
  number of rows in status processed.
\<close>

theorem processed_count_coherent:
  assumes "drain_history cs init_db"
  shows "processed_count (run_ops cs init_db) = int (count_status Processed (run_ops cs init_db))
       \<and> stats_processed_count (run_ops cs init_db) = int (count_status Processed (run_ops cs init_db))
       \<and> total_processed (get_queue_stats (run_ops cs init_db))
           = int (processed (get_queue_stats (run_ops cs init_db)))"
proof -
  have "processed_count init_db = int (count_status Processed init_db)"
    and "stats_processed_count init_db = processed_count init_db"
    by (simp_all add: init_db_def count_status_def)
  from coherent_run [OF well_formed_init this assms]
  show ?thesis by (simp add: get_queue_stats_def)
qed

lemma one_drain_run:
  "run_ops one_drain init_db = mark_failed [2] (mark_processed ''2026-01-01T10:00:07'' [1] q_two)"
  by (simp add: one_drain_def run_ops_def q_two_def q_one_def)

lemma one_drain_history: "drain_history one_drain init_db"
proof -
  have a: "drain_history one_drain init_db
        = (drain_call (MarkProcessed ''2026-01-01T10:00:07'' [1]) q_two
           \<and> drain_call (MarkFailed [2]) (mark_processed ''2026-01-01T10:00:07'' [1] q_two))"
    by (simp add: one_drain_def q_two_def q_one_def)
  have b: "ids_with_status Pending q_two = [1, 2]"
    by (simp add: ids_with_status_def q_two_rows)
  have c: "ids_with_status Processed (mark_processed ''2026-01-01T10:00:07'' [1] q_two) = [1]"
    by (simp add: ids_with_status_def rows_mark_processed q_two_rows)
  show ?thesis unfolding a by (simp add: b c)
qed

theorem processed_count_coherent_witness:
  "total_processed (get_queue_stats (run_ops one_drain init_db)) = 1
   \<and> processed (get_queue_stats (run_ops one_drain init_db)) = 1"
proof -
  have "processed (get_queue_stats (run_ops one_drain init_db)) = 1"
    unfolding one_drain_run
    by (simp add: get_queue_stats_def count_status_def rows_mark_failed rows_mark_processed q_two_rows)
  with processed_count_coherent [OF one_drain_history] show ?thesis by simp
qed

text \<open>
  Claim C4 as stated fails: the counter grows by the length of the id list, not by the number
  of rows that became processed. Acknowledging the one event twice gives a counter of 2 with
  one processed row.
\<close>

theorem processed_count_double_ack:
  "without_cleanup double_ack
   \<and> total_processed (get_queue_stats (run_ops double_ack init_db)) = 2
   \<and> processed (get_queue_stats (run_ops double_ack init_db)) = 1"
proof -
  have r: "run_ops double_ack init_db
        = mark_processed ''2026-01-01T10:00:12'' [1] (mark_processed ''2026-01-01T10:00:07'' [1] q_one)"
    by (simp add: double_ack_def run_ops_def q_one_def)
  have "processed_count (run_ops double_ack init_db) = 2"
    unfolding r by (simp add: counters_ops q_one_seq)
  moreover have "count_status Processed (run_ops double_ack init_db) = 1"
    unfolding r by (simp add: count_status_def rows_mark_processed q_one_rows)
  ultimately show ?thesis by (simp add: get_queue_stats_def double_ack_def)
qed



text \<open>
  Once every row with id \<open>i\<close> has a retry count of at least 5 and the AUTOINCREMENT
  counter has passed \<open>i\<close>, this stays so under every operation.
\<close>

lemma exhausted_step:
  assumes "i \<le> seq q" "\<forall>r \<in> set (rows q). row_id r = i \<longrightarrow> 5 \<le> retry_count r"
  shows "i \<le> seq (apply_op c q)
         \<and> (\<forall>r \<in> set (rows (apply_op c q)). row_id r = i \<longrightarrow> 5 \<le> retry_count r)"
proof (cases c)
  case (Enqueue e now)
  from assms(1) next_row_id_seq [of q] have "i < next_row_id q" by simp
  with assms(2) show ?thesis by (auto simp: Enqueue rows_enqueue seq_ops)
next
  case (MarkProcessed now ids)
  with assms show ?thesis by (auto simp: rows_mark_processed seq_ops)
next
  case (MarkFailed ids)
  with assms show ?thesis by (fastforce simp: rows_mark_failed seq_ops)
next
  case (CleanupOld cutoff)
  with assms show ?thesis by (auto simp: cleanup_old_def)
qed

lemma exhausted_run:
  "i \<le> seq q \<Longrightarrow> \<forall>r \<in> set (rows q). row_id r = i \<longrightarrow> 5 \<le> retry_count r \<Longrightarrow>
   i \<le> seq (run_ops cs q)
   \<and> (\<forall>r \<in> set (rows (run_ops cs q)). row_id r = i \<longrightarrow> 5 \<le> retry_count r)"
proof (induction cs arbitrary: q)
  case Nil
  then show ?case by (simp add: run_ops_def)
next
  case (Cons c cs)
  from exhausted_step [OF Cons.prems, of c]
  have "i \<le> seq (apply_op c q)"
    and "\<forall>r \<in> set (rows (apply_op c q)). row_id r = i \<longrightarrow> 5 \<le> retry_count r" by simp_all
  from Cons.IH [OF this] show ?case by (simp add: run_ops_def)
qed

lemma select_pending_member:
  assumes "r \<in> set (select_pending b q)"
  shows "r \<in> set (rows q) \<and> status r = Pending \<and> retry_count r < 5"
proof -
  let ?srt = "sort_key created_at (filter (\<lambda>r. status r = Pending \<and> retry_count r < 5) (rows q))"
  from assms have "r \<in> set (sql_limit b ?srt)" by (simp add: select_pending_def)
  with sql_limit_subset [of b ?srt] have "r \<in> set ?srt" by blast
  then show ?thesis by simp
qed

lemma exhausted_not_pending:
  assumes "\<forall>r \<in> set (rows q). row_id r = i \<longrightarrow> 5 \<le> retry_count r"
  shows "i \<notin> set (map ev_id (get_pending b q))"
proof
  assume "i \<in> set (map ev_id (get_pending b q))"
  then obtain r where r: "r \<in> set (select_pending b q)" "row_id r = i"
    by (auto simp: get_pending_def row_to_event_def)
  from select_pending_member [OF r(1)] have "r \<in> set (rows q)" "retry_count r < 5"
    by simp_all
  with assms r(2) show False by fastforce
qed

text \<open>
  Claim C5. \<^verbatim>\<open>mark_failed\<close>, given the id of a pending row, adds one to its retry count
  and sets its status to failed when the new count is at least 5, to pending otherwise; a row
  that had retry count 4 is failed, and its id is in the result of no \<^verbatim>\<open>get_pending\<close>
  after any further history of the queue (\<^verbatim>\<open>cleanup_old\<close> included).
\<close>

theorem mark_failed_pending:
  assumes "well_formed q" "k < length (rows q)" "status (rows q ! k) = Pending"
    and "row_id (rows q ! k) \<in> set ids"
  shows "rows (mark_failed ids q) ! k
           = (rows q ! k)\<lparr>retry_count := retry_count (rows q ! k) + 1,
                           status := (if 5 \<le> retry_count (rows q ! k) + 1 then Failed else Pending)\<rparr>
       \<and> (retry_count (rows q ! k) = 4 \<longrightarrow>
             status (rows (mark_failed ids q) ! k) = Failed
           \<and> (\<forall>cs b. row_id (rows q ! k)
                    \<notin> set (map ev_id (get_pending b (run_ops cs (mark_failed ids q))))))"
proof -
  let ?r = "rows q ! k" and ?q' = "mark_failed ids q"
  have a: "rows ?q' ! k
           = ?r\<lparr>retry_count := retry_count ?r + 1,
                 status := (if 5 \<le> retry_count ?r + 1 then Failed else Pending)\<rparr>"
    using assms(2,4) by (simp add: rows_mark_failed)
  have b: "status (rows ?q' ! k) = Failed
           \<and> (\<forall>cs b. row_id ?r \<notin> set (map ev_id (get_pending b (run_ops cs ?q'))))"
    if four: "retry_count ?r = 4"
  proof
    show "status (rows ?q' ! k) = Failed" using a four by simp
  next
    from assms(1) have dist: "distinct (map row_id (rows q))"
      and le: "\<forall>r \<in> set (rows q). row_id r \<le> seq q"
      by (simp_all add: well_formed_def list_all_iff)
    from assms(2) have mem: "?r \<in> set (rows q)" by simp
    with le have s: "row_id ?r \<le> seq ?q'" by (simp add: seq_ops)
    have e: "\<forall>r \<in> set (rows ?q'). row_id r = row_id ?r \<longrightarrow> 5 \<le> retry_count r"
    proof (intro ballI impI)
      fix r assume r: "r \<in> set (rows ?q')" "row_id r = row_id ?r"
      then obtain r0 where r0: "r0 \<in> set (rows q)"
        and rr: "r = (if row_id r0 \<in> set ids
                      then r0\<lparr>retry_count := retry_count r0 + 1,
                              status := (if retry_count r0 \<ge> 4 then Failed else Pending)\<rparr>
                      else r0)"
        by (auto simp: rows_mark_failed)
      from rr r(2) have "row_id r0 = row_id ?r" by (simp split: if_splits)
      from row_by_id [OF dist r0 mem this] have "r0 = ?r" .
      with rr assms(4) four show "5 \<le> retry_count r" by simp
    qed
    show "\<forall>cs b. row_id ?r \<notin> set (map ev_id (get_pending b (run_ops cs ?q')))"
    proof (intro allI)
      fix cs b
      from exhausted_run [OF s e, of cs]
      have "\<forall>r \<in> set (rows (run_ops cs ?q')). row_id r = row_id ?r \<longrightarrow> 5 \<le> retry_count r"
        by simp
      then show "row_id ?r \<notin> set (map ev_id (get_pending b (run_ops cs ?q')))"
        by (rule exhausted_not_pending)
    qed
  qed
  from a b show ?thesis by blast
qed

theorem mark_failed_pending_witness:
  "status (rows (mark_failed [1] q_retry4) ! 0) = Failed
   \<and> retry_count (rows (mark_failed [1] q_retry4) ! 0) = 5
   \<and> 1 \<notin> set (map ev_id (get_pending 50
            (run_ops [Enqueue ev_b ''2026-01-01 10:00:05'', MarkFailed [1],
                      MarkProcessed ''2026-01-01T10:00:30'' [2]]
               (mark_failed [1] q_retry4))))"
proof -
  have k: "0 < length (rows q_retry4)" by (simp add: q_retry4_rows)
  have p: "status (rows q_retry4 ! 0) = Pending" by (simp add: q_retry4_rows)
  have i: "row_id (rows q_retry4 ! 0) \<in> set [1]" by (simp add: q_retry4_rows)
  have four: "retry_count (rows q_retry4 ! 0) = 4" by (simp add: q_retry4_rows)
  have one: "row_id (rows q_retry4 ! 0) = 1" by (simp add: q_retry4_rows)
  from mark_failed_pending [OF q_retry4_well_formed k p i] four
  have a: "rows (mark_failed [1] q_retry4) ! 0
           = (rows q_retry4 ! 0)\<lparr>retry_count := retry_count (rows q_retry4 ! 0) + 1,
                 status := (if 5 \<le> retry_count (rows q_retry4 ! 0) + 1 then Failed else Pending)\<rparr>"
    and b: "\<forall>cs b. row_id (rows q_retry4 ! 0)
                    \<notin> set (map ev_id (get_pending b (run_ops cs (mark_failed [1] q_retry4))))"
    by blast+
  from a four have "status (rows (mark_failed [1] q_retry4) ! 0) = Failed"
    and "retry_count (rows (mark_failed [1] q_retry4) ! 0) = 5" by simp_all
  moreover from b one have "1 \<notin> set (map ev_id (get_pending 50
            (run_ops [Enqueue ev_b ''2026-01-01 10:00:05'', MarkFailed [1],
                      MarkProcessed ''2026-01-01T10:00:30'' [2]]
               (mark_failed [1] q_retry4))))"
    by metis
  ultimately show ?thesis by blast
qed

end
